theory Spec2Isabelle
  imports Complex_Main "HOL-Library.AList"
begin

section \<open>Calendar dates\<close>

text \<open>
  A \<^verbatim>\<open>datetime.date\<close> is represented by its proleptic Gregorian ordinal
  (\<^verbatim>\<open>date.toordinal()\<close>): day 1 is 0001-01-01, a Monday, and the last
  representable day, \<^verbatim>\<open>date.max\<close> = 9999-12-31, is day 3652059.
  Comparison of dates is comparison of ordinals.
\<close>

type_synonym date = int

definition date_max :: date where
  "date_max = 3652059"

text \<open>\<^verbatim>\<open>date.weekday()\<close>: Monday is 0 and Sunday is 6.\<close>

definition weekday :: "date \<Rightarrow> int" where
  "weekday d = (d + 6) mod 7"

text \<open>
  \<^verbatim>\<open>date.year\<close>, by the day-count arithmetic of the standard library
  (400-, 100-, 4- and 1-year cycles of 146097, 36524, 1461 and 365 days).
\<close>

definition year_of :: "date \<Rightarrow> int" where
  "year_of d =
     (let n = d - 1;
          n400 = n div 146097; r400 = n mod 146097;
          n100 = r400 div 36524; r100 = r400 mod 36524;
          n4 = r100 div 1461; r4 = r100 mod 1461;
          n1 = r4 div 365;
          y = n400 * 400 + 1 + n100 * 100 + n4 * 4 + n1
      in if n1 = 4 \<or> n100 = 4 then y - 1 else y)"

section \<open>Exceptions\<close>

datatype error =
    OverflowError
  | ValidationError
  | Http404
  | AttributeError
  | ValueError
  | MultipleObjectsReturned

section \<open>Business days of a leave request\<close>

text \<open>
  The \<^verbatim>\<open>while current_date <= self.end_date\<close> loop of
  \<^verbatim>\<open>LeaveRequest.calculate_business_days\<close>, with its two loop variables.
  \<^verbatim>\<open>current_date += timedelta(days=1)\<close> must give a date again: past
  \<^verbatim>\<open>date.max\<close> Python raises \<^verbatim>\<open>OverflowError: date value out of range\<close>.
\<close>

function business_days_loop :: "date \<Rightarrow> date \<Rightarrow> nat \<Rightarrow> error + nat" where
  "business_days_loop current_date end_date business_days =
     (if current_date \<le> end_date then
        (let business_days' =
               (if weekday current_date < 5 then business_days + 1 else business_days)
         in if current_date + 1 > date_max then Inl OverflowError
            else business_days_loop (current_date + 1) end_date business_days')
      else Inr business_days)"
  by pat_completeness auto
termination
  by (relation "measure (\<lambda>(c, e, b). nat (e + 1 - c))") auto

declare business_days_loop.simps [simp del]

text \<open>
  The method reads only \<^verbatim>\<open>self.start_date\<close> and \<^verbatim>\<open>self.end_date\<close>;
  either may be unset on an instance that was never saved, and then the result is 0.
\<close>

definition calculate_business_days :: "date option \<Rightarrow> date option \<Rightarrow> error + nat" where
  "calculate_business_days start_date end_date =
     (case (start_date, end_date) of
        (Some s, Some e) \<Rightarrow> business_days_loop s e 0
      | _ \<Rightarrow> Inr 0)"

section \<open>The relational store\<close>

text \<open>
  Users, projects and leave types are referred to by primary key. Decimal columns
  (\<^verbatim>\<open>hours\<close>, \<^verbatim>\<open>total_days\<close>, \<^verbatim>\<open>allocated_days\<close>) are exact
  rationals: finite decimals, added and compared exactly.
\<close>

type_synonym user_id = nat
type_synonym project_id = nat
type_synonym leave_type_id = nat

record project =
  pr_pk :: project_id
  pr_active :: bool
  pr_members :: "user_id list"

record time_entry =
  te_pk :: "nat option"
  te_user :: user_id
  te_project :: "project_id option"
  te_date :: date
  te_hours :: rat
  te_submitted :: bool

datatype status = PENDING | APPROVED | REJECTED | CANCELLED

record leave_request =
  lr_pk :: "nat option"
  lr_user :: user_id
  lr_leave_type :: leave_type_id
  lr_start_date :: date
  lr_end_date :: date
  lr_total_days :: rat
  lr_comments :: string
  lr_status :: status
  lr_approved_by :: "user_id option"
  lr_approved_at :: "nat option"
  lr_rejection_reason :: string

text \<open>
  \<^verbatim>\<open>LeaveEntitlement\<close> is unique on (user, leave_type, year), so the table is a
  map from that key to \<^verbatim>\<open>allocated_days\<close>. \<^verbatim>\<open>User.manager\<close> is a nullable
  foreign key: a map from a user to the manager, if any. The other tables are lists of
  rows, in no particular order.
\<close>

record database =
  user_manager :: "user_id \<Rightarrow> user_id option"
  projects :: "project list"
  time_entries :: "time_entry list"
  leave_entitlements :: "user_id \<times> leave_type_id \<times> int \<Rightarrow> rat option"
  leave_requests :: "leave_request list"

text \<open>The key an INSERT assigns: one more than the largest key in the table.\<close>

definition pk_value :: "nat option \<Rightarrow> nat" where
  "pk_value k = (case k of None \<Rightarrow> 0 | Some n \<Rightarrow> n)"

definition next_pk :: "nat option list \<Rightarrow> nat" where
  "next_pk ks = Suc (fold max (map pk_value ks) 0)"

text \<open>
  \<^verbatim>\<open>Model.save()\<close> of the framework: an instance without a key is inserted under a
  fresh key; an instance with a key replaces the row of that key (or is inserted under
  it when there is none).
\<close>

definition write_time_entry :: "database \<Rightarrow> time_entry \<Rightarrow> database" where
  "write_time_entry db e =
     (case te_pk e of
        None \<Rightarrow>
          db\<lparr>time_entries :=
               time_entries db @ [e\<lparr>te_pk := Some (next_pk (map te_pk (time_entries db)))\<rparr>]\<rparr>
      | Some k \<Rightarrow>
          db\<lparr>time_entries := filter (\<lambda>r. te_pk r \<noteq> Some k) (time_entries db) @ [e]\<rparr>)"

definition write_leave_request :: "database \<Rightarrow> leave_request \<Rightarrow> database" where
  "write_leave_request db r =
     (case lr_pk r of
        None \<Rightarrow>
          db\<lparr>leave_requests :=
               leave_requests db
               @ [r\<lparr>lr_pk := Some (next_pk (map lr_pk (leave_requests db)))\<rparr>]\<rparr>
      | Some k \<Rightarrow>
          db\<lparr>leave_requests := filter (\<lambda>x. lr_pk x \<noteq> Some k) (leave_requests db) @ [r]\<rparr>)"

section \<open>User\<close>

text \<open>\<^verbatim>\<open>User.is_manager_of\<close>: \<^verbatim>\<open>user.manager == self\<close>.\<close>

definition is_manager_of :: "database \<Rightarrow> user_id \<Rightarrow> user_id \<Rightarrow> bool" where
  "is_manager_of db self u = (user_manager db u = Some self)"

section \<open>LeaveEntitlement\<close>

text \<open>
  \<^verbatim>\<open>used_days\<close>: the sum of \<^verbatim>\<open>total_days\<close> over the APPROVED requests of the
  user and leave type that start in the year; the aggregate of no rows is
  \<^verbatim>\<open>None\<close>, replaced by 0.
\<close>

definition used_days :: "database \<Rightarrow> user_id \<Rightarrow> leave_type_id \<Rightarrow> int \<Rightarrow> rat" where
  "used_days db u lt y =
     sum_list (map lr_total_days
       (filter (\<lambda>r. lr_user r = u \<and> lr_leave_type r = lt \<and> year_of (lr_start_date r) = y
                     \<and> lr_status r = APPROVED)
          (leave_requests db)))"

definition remaining_days :: "database \<Rightarrow> user_id \<Rightarrow> leave_type_id \<Rightarrow> int \<Rightarrow> rat \<Rightarrow> rat" where
  "remaining_days db u lt y allocated_days = allocated_days - used_days db u lt y"


section \<open>TimeEntry\<close>

definition is_leave_day :: "database \<Rightarrow> user_id \<Rightarrow> date \<Rightarrow> bool" where
  "is_leave_day db u d =
     (filter (\<lambda>r. lr_user r = u \<and> lr_status r = APPROVED
                   \<and> lr_start_date r \<le> d \<and> lr_end_date r \<ge> d)
        (leave_requests db) \<noteq> [])"

text \<open>
  The rows \<^verbatim>\<open>TimeEntry.clean\<close> sums: those of the user and date, without the row of
  the instance's own key when \<^verbatim>\<open>self.pk\<close> is truthy (set and not 0).
\<close>

definition other_entries :: "database \<Rightarrow> time_entry \<Rightarrow> time_entry list" where
  "other_entries db self =
     (let qs = filter (\<lambda>e. te_user e = te_user self \<and> te_date e = te_date self)
                 (time_entries db)
      in case te_pk self of
           None \<Rightarrow> qs
         | Some k \<Rightarrow> if k \<noteq> 0 then filter (\<lambda>e. te_pk e \<noteq> Some k) qs else qs)"

definition TimeEntry_clean :: "database \<Rightarrow> time_entry \<Rightarrow> error + unit" where
  "TimeEntry_clean db self =
     (if is_leave_day db (te_user self) (te_date self) then Inr ()
      else
        let total = sum_list (map te_hours (other_entries db self))
        in if total + te_hours self > 15 / 2 then Inl ValidationError else Inr ())"

text \<open>
  \<^verbatim>\<open>full_clean\<close> runs the framework's own checks of the declared columns and
  constraints (a parameter here: \<open>fields_valid\<close>) and \<^verbatim>\<open>clean\<close>, and raises
  \<^verbatim>\<open>ValidationError\<close> when any of them failed. \<^verbatim>\<open>TimeEntry.save\<close> writes the
  row only after \<^verbatim>\<open>full_clean\<close> has returned.
\<close>

definition TimeEntry_full_clean ::
  "(database \<Rightarrow> time_entry \<Rightarrow> bool) \<Rightarrow> database \<Rightarrow> time_entry \<Rightarrow> error + unit" where
  "TimeEntry_full_clean fields_valid db self =
     (if fields_valid db self then TimeEntry_clean db self else Inl ValidationError)"

definition TimeEntry_save ::
  "(database \<Rightarrow> time_entry \<Rightarrow> bool) \<Rightarrow> database \<Rightarrow> time_entry \<Rightarrow> error + database" where
  "TimeEntry_save fields_valid db self =
     (case TimeEntry_full_clean fields_valid db self of
        Inl e \<Rightarrow> Inl e
      | Inr _ \<Rightarrow> Inr (write_time_entry db self))"

text \<open>The sum the daily cap is about: all hours of a user on a date.\<close>

definition hours_on :: "database \<Rightarrow> user_id \<Rightarrow> date \<Rightarrow> rat" where
  "hours_on db u d =
     sum_list (map te_hours (filter (\<lambda>e. te_user e = u \<and> te_date e = d) (time_entries db)))"

section \<open>Responses\<close>

text \<open>
  What a view answers with: a page rendered with the flashed messages, a redirect after
  one message, a plain or JSON response with its status code, or an exception that leaves
  the view (the framework turns \<^verbatim>\<open>Http404\<close> into a 404 page and any other into a
  500 page).
\<close>

datatype message =
    InvalidHours date
  | CannotExceed date
  | EmptyTimesheet
  | Incomplete rat rat
  | TimesheetSaved
  | TimesheetSubmitted
  | FieldRequired
  | StartAfterEnd
  | StartBeforeToday
  | OverlappingRequest
  | NoEntitlement leave_type_id int
  | InsufficientBalance rat
  | LeaveSubmitted rat

datatype response =
    Render "message list"
  | Redirect message
  | HttpResponse nat
  | JsonResponse nat
  | Raise error

section \<open>Weekly timesheet\<close>


text \<open>
  The approved leave days of the week: a set, kept as a list without repetitions. The
  inner loop walks one request from \<^verbatim>\<open>max(start_date, week_start)\<close> to
  \<^verbatim>\<open>min(end_date, week_end)\<close>.
\<close>

function leave_days_loop :: "date \<Rightarrow> date \<Rightarrow> date list \<Rightarrow> error + date list" where
  "leave_days_loop current_date end_date approved_leave_days =
     (if current_date \<le> end_date then
        (let approved_leave_days' =
               (if weekday current_date < 5 then List.insert current_date approved_leave_days
                else approved_leave_days)
         in if current_date + 1 > date_max then Inl OverflowError
            else leave_days_loop (current_date + 1) end_date approved_leave_days')
      else Inr approved_leave_days)"
  by pat_completeness auto
termination
  by (relation "measure (\<lambda>(c, e, a). nat (e + 1 - c))") auto

declare leave_days_loop.simps [simp del]

fun leave_days_of_requests ::
  "leave_request list \<Rightarrow> date \<Rightarrow> date \<Rightarrow> date list \<Rightarrow> error + date list" where
  "leave_days_of_requests [] week_start week_end approved_leave_days = Inr approved_leave_days"
| "leave_days_of_requests (leave_request # rest) week_start week_end approved_leave_days =
     (case leave_days_loop (max (lr_start_date leave_request) week_start)
             (min (lr_end_date leave_request) week_end) approved_leave_days of
        Inl e \<Rightarrow> Inl e
      | Inr approved_leave_days' \<Rightarrow>
          leave_days_of_requests rest week_start week_end approved_leave_days')"

definition approved_leave_days :: "database \<Rightarrow> user_id \<Rightarrow> date \<Rightarrow> date \<Rightarrow> error + date list" where
  "approved_leave_days db u week_start week_end =
     leave_days_of_requests
       (filter (\<lambda>r. lr_user r = u \<and> lr_status r = APPROVED
                     \<and> lr_start_date r \<le> week_end \<and> lr_end_date r \<ge> week_start)
          (leave_requests db))
       week_start week_end []"






text \<open>
  \<^verbatim>\<open>get_object_or_404(Project, pk=pid, members=request.user, active=True)\<close>.
\<close>

definition get_project :: "database \<Rightarrow> user_id \<Rightarrow> project_id \<Rightarrow> error + project" where
  "get_project db u pid =
     (case filter (\<lambda>p. pr_pk p = pid \<and> u \<in> set (pr_members p) \<and> pr_active p) (projects db) of
        [] \<Rightarrow> Inl Http404
      | [p] \<Rightarrow> Inr p
      | _ \<Rightarrow> Inl MultipleObjectsReturned)"

text \<open>
  \<^verbatim>\<open>TimeEntry.objects.update_or_create(user, project, date, defaults)\<close>: the row of
  the key gets the defaults and is saved, or a new instance is saved.
\<close>

definition update_or_create ::
  "(database \<Rightarrow> time_entry \<Rightarrow> bool) \<Rightarrow> database \<Rightarrow> user_id \<Rightarrow> project_id \<Rightarrow> date \<Rightarrow> rat \<Rightarrow> bool
     \<Rightarrow> error + database" where
  "update_or_create fields_valid db u p d hrs sub =
     (case filter (\<lambda>e. te_user e = u \<and> te_project e = Some p \<and> te_date e = d)
             (time_entries db) of
        [] \<Rightarrow>
          TimeEntry_save fields_valid db
            \<lparr>te_pk = None, te_user = u, te_project = Some p, te_date = d,
             te_hours = hrs, te_submitted = sub\<rparr>
      | [obj] \<Rightarrow> TimeEntry_save fields_valid db (obj\<lparr>te_hours := hrs, te_submitted := sub\<rparr>)
      | _ \<Rightarrow> Inl MultipleObjectsReturned)"

text \<open>
  The body of \<^verbatim>\<open>with transaction.atomic()\<close>: the first exception ends the loop, and
  the caller then keeps the store it had (the transaction is rolled back).
\<close>

fun persist_entries ::
  "(database \<Rightarrow> time_entry \<Rightarrow> bool) \<Rightarrow> database \<Rightarrow> user_id \<Rightarrow> bool
     \<Rightarrow> ((project_id \<times> date) \<times> rat) list \<Rightarrow> error + database" where
  "persist_entries fields_valid db u sub [] = Inr db"
| "persist_entries fields_valid db u sub (((pid, dt), hrs) # rest) =
     (case get_project db u pid of
        Inl e \<Rightarrow> Inl e
      | Inr project \<Rightarrow>
          (case update_or_create fields_valid db u (pr_pk project) dt hrs sub of
             Inl e \<Rightarrow> Inl e
           | Inr db' \<Rightarrow> persist_entries fields_valid db' u sub rest))"




section \<open>Leave requests\<close>

text \<open>
  \<^verbatim>\<open>LeaveRequest.save\<close>: \<^verbatim>\<open>total_days\<close> is computed when it is falsy (0), then
  the row is written. The calculation can raise, and then nothing is written.
\<close>

definition LeaveRequest_save :: "database \<Rightarrow> leave_request \<Rightarrow> error + database" where
  "LeaveRequest_save db self =
     (if lr_total_days self = 0 then
        (case calculate_business_days (Some (lr_start_date self)) (Some (lr_end_date self)) of
           Inl e \<Rightarrow> Inl e
         | Inr n \<Rightarrow> Inr (write_leave_request db (self\<lparr>lr_total_days := of_nat n\<rparr>)))
      else Inr (write_leave_request db self))"

text \<open>
  \<^verbatim>\<open>approve\<close> and \<^verbatim>\<open>reject\<close>. \<open>now\<close> is \<^verbatim>\<open>timezone.now()\<close>. The status
  notification that follows the save writes log lines only.
\<close>

definition approve :: "database \<Rightarrow> nat \<Rightarrow> leave_request \<Rightarrow> user_id \<Rightarrow> error + database" where
  "approve db now self approved_by_user =
     LeaveRequest_save db
       (self\<lparr>lr_status := APPROVED, lr_approved_by := Some approved_by_user,
             lr_approved_at := Some now\<rparr>)"

definition reject ::
  "database \<Rightarrow> nat \<Rightarrow> leave_request \<Rightarrow> user_id \<Rightarrow> string \<Rightarrow> error + database" where
  "reject db now self rejected_by_user reason =
     LeaveRequest_save db
       (self\<lparr>lr_status := REJECTED, lr_approved_by := Some rejected_by_user,
             lr_approved_at := Some now, lr_rejection_reason := reason\<rparr>)"

text \<open>\<^verbatim>\<open>get_object_or_404(LeaveRequest, pk=request_id)\<close>, with an optional owner.\<close>

definition get_leave_request ::
  "database \<Rightarrow> nat \<Rightarrow> user_id option \<Rightarrow> error + leave_request" where
  "get_leave_request db request_id owner =
     (case filter (\<lambda>r. lr_pk r = Some request_id
                        \<and> (case owner of None \<Rightarrow> True | Some u \<Rightarrow> lr_user r = u))
             (leave_requests db) of
        [] \<Rightarrow> Inl Http404
      | [r] \<Rightarrow> Inr r
      | _ \<Rightarrow> Inl MultipleObjectsReturned)"

datatype http_method = GET | POST

text \<open>
  The part of the \<^verbatim>\<open>HttpRequest\<close> the leave views read: the signed-in user, the
  method and two POST fields. The object has no attribute \<^verbatim>\<open>id\<close>: reading
  \<^verbatim>\<open>request.id\<close> raises \<^verbatim>\<open>AttributeError\<close>.
\<close>

record http_request =
  rq_user :: user_id
  rq_method :: http_method
  rq_action :: "string option"
  rq_rejection_reason :: "string option"

definition request_id_attribute :: "http_request \<Rightarrow> error + nat" where
  "request_id_attribute request = Inl AttributeError"

text \<open>\<^verbatim>\<open>str.strip()\<close> of the posted reason.\<close>

definition is_space :: "char \<Rightarrow> bool" where
  "is_space c = (c \<in> set [CHR '' '', CHR 0x09, CHR 0x0A, CHR 0x0B, CHR 0x0C, CHR 0x0D])"

definition strip :: "string \<Rightarrow> string" where
  "strip s = rev (dropWhile is_space (rev (dropWhile is_space s)))"

text \<open>
  \<^verbatim>\<open>approve_reject_leave\<close>. The permission branch builds its log line from
  \<^verbatim>\<open>request.id\<close> before it returns the 403 response. An exception of
  \<^verbatim>\<open>approve\<close> or \<^verbatim>\<open>reject\<close> is caught and answered with status 500.
\<close>

definition approve_reject_leave ::
  "database \<Rightarrow> nat \<Rightarrow> http_request \<Rightarrow> nat \<Rightarrow> response \<times> database" where
  "approve_reject_leave db now request request_id =
     (case get_leave_request db request_id None of
        Inl e \<Rightarrow> (Raise e, db)
      | Inr leave_request \<Rightarrow>
          if \<not> is_manager_of db (rq_user request) (lr_user leave_request) then
            (case request_id_attribute request of
               Inl e \<Rightarrow> (Raise e, db)
             | Inr _ \<Rightarrow> (JsonResponse 403, db))
          else if rq_method request = POST then
            (if rq_action request = Some ''approve'' then
               (case approve db now leave_request (rq_user request) of
                  Inl e \<Rightarrow> (HttpResponse 500, db)
                | Inr db' \<Rightarrow> (HttpResponse 200, db'))
             else if rq_action request = Some ''reject'' then
               (let reason = strip (case rq_rejection_reason request of
                                      None \<Rightarrow> [] | Some r \<Rightarrow> r)
                in if reason = [] then (HttpResponse 400, db)
                   else
                     (case reject db now leave_request (rq_user request) reason of
                        Inl e \<Rightarrow> (HttpResponse 500, db)
                      | Inr db' \<Rightarrow> (HttpResponse 200, db')))
             else (HttpResponse 400, db))
          else (HttpResponse 405, db))"

text \<open>\<^verbatim>\<open>cancel_leave_request\<close>: the request must be the user's own and PENDING.\<close>

definition cancel_leave_request ::
  "database \<Rightarrow> http_request \<Rightarrow> nat \<Rightarrow> response \<times> database" where
  "cancel_leave_request db request request_id =
     (case get_leave_request db request_id (Some (rq_user request)) of
        Inl e \<Rightarrow> (Raise e, db)
      | Inr leave_request \<Rightarrow>
          if lr_status leave_request \<noteq> PENDING then (HttpResponse 400, db)
          else
            (case LeaveRequest_save db (leave_request\<lparr>lr_status := CANCELLED\<rparr>) of
               Inl e \<Rightarrow> (Raise e, db)
             | Inr db' \<Rightarrow> (HttpResponse 204, db')))"

section \<open>Creating a leave request\<close>

text \<open>
  The posted form after the framework has cleaned its fields: each required field is
  \<open>None\<close> when it is missing or did not validate (\<open>leave_type\<close> must be an active
  leave type).
\<close>

record leave_post =
  lp_leave_type :: "leave_type_id option"
  lp_start_date :: "date option"
  lp_end_date :: "date option"
  lp_comments :: string

definition overlapping :: "database \<Rightarrow> user_id \<Rightarrow> date \<Rightarrow> date \<Rightarrow> leave_request list" where
  "overlapping db u start_date end_date =
     filter (\<lambda>r. lr_user r = u \<and> (lr_status r = PENDING \<or> lr_status r = APPROVED)
                  \<and> lr_start_date r \<le> end_date \<and> lr_end_date r \<ge> start_date)
       (leave_requests db)"

text \<open>
  \<^verbatim>\<open>LeaveRequestForm.clean\<close> for the form's user: \<open>Inl\<close> an exception that
  leaves the form, otherwise the validation errors raised (none or one) and
  \<^verbatim>\<open>cleaned_data["total_days"]\<close> when it was set.
\<close>

definition LeaveRequestForm_clean ::
  "database \<Rightarrow> date \<Rightarrow> user_id \<Rightarrow> leave_post \<Rightarrow> error + (message list \<times> nat option)" where
  "LeaveRequestForm_clean db today u post =
     (case (lp_start_date post, lp_end_date post) of
        (Some start_date, Some end_date) \<Rightarrow>
          if start_date > end_date then Inr ([StartAfterEnd], None)
          else if start_date < today then Inr ([StartBeforeToday], None)
          else if overlapping db u start_date end_date \<noteq> [] then Inr ([OverlappingRequest], None)
          else
            (case calculate_business_days (Some start_date) (Some end_date) of
               Inl e \<Rightarrow> Inl e
             | Inr total_days \<Rightarrow> Inr ([], Some total_days))
      | _ \<Rightarrow> Inr ([], None))"

text \<open>
  \<^verbatim>\<open>form.is_valid()\<close>: the required fields are there and \<^verbatim>\<open>clean\<close> raised no
  validation error. The instance the form builds is new: PENDING, no approver.
\<close>

definition missing_fields :: "leave_post \<Rightarrow> message list" where
  "missing_fields post =
     (if lp_leave_type post = None then [FieldRequired] else [])
     @ (if lp_start_date post = None then [FieldRequired] else [])
     @ (if lp_end_date post = None then [FieldRequired] else [])"

definition new_leave_request ::
  "user_id \<Rightarrow> leave_type_id \<Rightarrow> date \<Rightarrow> date \<Rightarrow> string \<Rightarrow> rat \<Rightarrow> leave_request" where
  "new_leave_request u lt start_date end_date comments total_days =
     \<lparr>lr_pk = None, lr_user = u, lr_leave_type = lt, lr_start_date = start_date,
      lr_end_date = end_date, lr_total_days = total_days, lr_comments = comments,
      lr_status = PENDING, lr_approved_by = None, lr_approved_at = None,
      lr_rejection_reason = []\<rparr>"

text \<open>
  The POST branch of \<^verbatim>\<open>leave_request_form\<close>. The two notifications after the save
  write log lines only; the success message carries the days requested.
\<close>

definition leave_request_form ::
  "database \<Rightarrow> date \<Rightarrow> user_id \<Rightarrow> leave_post \<Rightarrow> response \<times> database" where
  "leave_request_form db today u post =
     (case LeaveRequestForm_clean db today u post of
        Inl e \<Rightarrow> (Raise e, db)
      | Inr (form_errors, cleaned_total_days) \<Rightarrow>
          (case (lp_leave_type post, lp_start_date post, lp_end_date post, cleaned_total_days) of
             (Some lt, Some start_date, Some end_date, Some cleaned) \<Rightarrow>
               (case (if cleaned = 0
                      then calculate_business_days (Some start_date) (Some end_date)
                      else Inr cleaned) of
                  Inl e \<Rightarrow> (Raise e, db)
                | Inr total_days \<Rightarrow>
                    (case leave_entitlements db (u, lt, year_of start_date) of
                       None \<Rightarrow> (Render [NoEntitlement lt (year_of start_date)], db)
                     | Some allocated_days \<Rightarrow>
                         let remaining =
                               remaining_days db u lt (year_of start_date) allocated_days
                         in if of_nat total_days > remaining
                            then (Render [InsufficientBalance remaining], db)
                            else
                              (case LeaveRequest_save db
                                      (new_leave_request u lt start_date end_date
                                         (lp_comments post) (of_nat total_days)) of
                                 Inl e \<Rightarrow> (Raise e, db)
                               | Inr db' \<Rightarrow> (Redirect (LeaveSubmitted (of_nat total_days)), db'))))
           | _ \<Rightarrow> (Render (missing_fields post @ form_errors), db)))"

section \<open>Stating what is persisted\<close>


definition keys_unique :: "database \<Rightarrow> bool" where
  "keys_unique db =
     (distinct (map te_pk (time_entries db)) \<and> None \<notin> set (map te_pk (time_entries db)))"

section \<open>Example data\<close>

text \<open>
  Monday 2030-01-07 is day 741084. User 1 reports to user 2 and is a member of the active
  projects 1 and 2; user 1 has 25 days of leave type 1 for 2030.
\<close>

definition monday :: date where
  "monday = 741084"

definition staff_db :: database where
  "staff_db =
     \<lparr>user_manager = (\<lambda>u. if u = 1 then Some 2 else None),
      projects = [\<lparr>pr_pk = 1, pr_active = True, pr_members = [1]\<rparr>,
                  \<lparr>pr_pk = 2, pr_active = True, pr_members = [1]\<rparr>],
      time_entries = [],
      leave_entitlements = (\<lambda>k. if k = (1, 1, 2030) then Some 25 else None),
      leave_requests = []\<rparr>"

definition all_fields_valid :: "database \<Rightarrow> time_entry \<Rightarrow> bool" where
  "all_fields_valid db e = True"

text \<open>Five hours are booked on project 1 for the Monday.\<close>

definition booked_db :: database where
  "booked_db =
     staff_db\<lparr>time_entries :=
       [\<lparr>te_pk = Some 1, te_user = 1, te_project = Some 1, te_date = monday,
         te_hours = 5, te_submitted = False\<rparr>]\<rparr>"

definition entry_of_hours :: "rat \<Rightarrow> time_entry" where
  "entry_of_hours h =
     \<lparr>te_pk = None, te_user = 1, te_project = Some 2, te_date = monday,
      te_hours = h, te_submitted = False\<rparr>"

text \<open>
  User 1 has an approved leave from Monday to Wednesday of that week, decided by the
  manager, and posts 7.5 hours on project 1 for Thursday and for Friday.
\<close>

definition approved_leave :: leave_request where
  "approved_leave =
     \<lparr>lr_pk = Some 1, lr_user = 1, lr_leave_type = 1, lr_start_date = monday,
      lr_end_date = monday + 2, lr_total_days = 3, lr_comments = [],
      lr_status = APPROVED, lr_approved_by = Some 2, lr_approved_at = Some 0,
      lr_rejection_reason = []\<rparr>"

definition leave_db :: database where
  "leave_db = staff_db\<lparr>leave_requests := [approved_leave]\<rparr>"







text \<open>
  Requests of the manager (user 2) and of a colleague (user 3) on the leave request with
  key 1, and the same leave request after it was rejected.
\<close>

definition manager_approves :: http_request where
  "manager_approves =
     \<lparr>rq_user = 2, rq_method = POST, rq_action = Some ''approve'',
      rq_rejection_reason = None\<rparr>"

definition manager_rejects :: http_request where
  "manager_rejects =
     \<lparr>rq_user = 2, rq_method = POST, rq_action = Some ''reject'',
      rq_rejection_reason = Some ''no cover''\<rparr>"

definition colleague_approves :: http_request where
  "colleague_approves =
     \<lparr>rq_user = 3, rq_method = POST, rq_action = Some ''approve'',
      rq_rejection_reason = None\<rparr>"

definition rejected_leave :: leave_request where
  "rejected_leave =
     approved_leave\<lparr>lr_status := REJECTED, lr_approved_at := Some 5,
                     lr_rejection_reason := ''no cover''\<rparr>"

definition pending_leave :: leave_request where
  "pending_leave =
     approved_leave\<lparr>lr_status := PENDING, lr_approved_by := None, lr_approved_at := None\<rparr>"

definition rejected_db :: database where
  "rejected_db = staff_db\<lparr>leave_requests := [rejected_leave]\<rparr>"

definition pending_db :: database where
  "pending_db = staff_db\<lparr>leave_requests := [pending_leave]\<rparr>"

text \<open>
  User 1 asks for leave type 1 from Monday to Wednesday; later the owner cancels the
  request with key 1, asks again for the same days, and the manager approves the
  request with key 1.
\<close>

definition leave_post_mon_wed :: leave_post where
  "leave_post_mon_wed =
     \<lparr>lp_leave_type = Some 1, lp_start_date = Some monday, lp_end_date = Some (monday + 2),
      lp_comments = []\<rparr>"

definition owner_cancels :: http_request where
  "owner_cancels =
     \<lparr>rq_user = 1, rq_method = POST, rq_action = None, rq_rejection_reason = None\<rparr>"

definition cancelled_db :: database where
  "cancelled_db = staff_db\<lparr>leave_requests := [pending_leave\<lparr>lr_status := CANCELLED\<rparr>]\<rparr>"

definition requested_again_db :: database where
  "requested_again_db =
     staff_db\<lparr>leave_requests :=
       [pending_leave\<lparr>lr_status := CANCELLED\<rparr>, pending_leave\<lparr>lr_pk := Some 2\<rparr>]\<rparr>"

definition conflict_db :: database where
  "conflict_db =
     staff_db\<lparr>leave_requests :=
       [pending_leave\<lparr>lr_pk := Some 2\<rparr>,
        pending_leave\<lparr>lr_status := APPROVED, lr_approved_by := Some 2,
                       lr_approved_at := Some 9\<rparr>]\<rparr>"

text \<open>A request for the last representable day only.\<close>

definition leave_post_last_day :: leave_post where
  "leave_post_last_day =
     \<lparr>lp_leave_type = Some 1, lp_start_date = Some date_max, lp_end_date = Some date_max,
      lp_comments = []\<rparr>"

section \<open>Properties of the business-day count\<close>

lemma business_days_loop_counts:
  "end_date < date_max \<Longrightarrow>
   business_days_loop current_date end_date n =
     Inr (n + card {d. current_date \<le> d \<and> d \<le> end_date \<and> weekday d < 5})"
proof (induction current_date end_date n rule: business_days_loop.induct)
  case (1 c e n)
  show ?case
  proof (cases "c \<le> e")
    case False
    then have empty: "{d. c \<le> d \<and> d \<le> e \<and> weekday d < 5} = {}" by auto
    from False show ?thesis
      by (subst business_days_loop.simps) (simp add: empty)
  next
    case True
    let ?S = "{d. c + 1 \<le> d \<and> d \<le> e \<and> weekday d < 5}"
    have fin: "finite ?S"
      by (rule finite_subset [of _ "{c + 1..e}"]) auto
    have notin: "c \<notin> ?S" by simp
    have split: "{d. c \<le> d \<and> d \<le> e \<and> weekday d < 5} =
                 (if weekday c < 5 then insert c ?S else ?S)"
      using True by (auto simp: order_le_less) 
    have no_overflow: "\<not> c + 1 > date_max" using True "1.prems" by simp
    have IH: "business_days_loop (c + 1) e (if weekday c < 5 then n + 1 else n) =
              Inr ((if weekday c < 5 then n + 1 else n) + card ?S)"
      using "1.IH" [OF True refl no_overflow "1.prems"] .
    show ?thesis
      using True no_overflow IH fin notin
      by (subst business_days_loop.simps) (simp add: split Let_def)
  qed
qed



lemma calculate_business_days_counts:
  "start_date \<le> end_date \<Longrightarrow> end_date < date_max \<Longrightarrow>
   calculate_business_days (Some start_date) (Some end_date) =
     Inr (card {d. start_date \<le> d \<and> d \<le> end_date \<and> weekday d < 5})"
  by (simp add: calculate_business_days_def business_days_loop_counts)

lemma calculate_business_days_single_weekday:
  "d < date_max \<Longrightarrow> weekday d < 5 \<Longrightarrow>
   calculate_business_days (Some d) (Some d) = Inr 1"
proof -
  assume a: "d < date_max" "weekday d < 5"
  then have "{x. d \<le> x \<and> x \<le> d \<and> weekday x < 5} = {d}" by auto
  with a show ?thesis by (simp add: calculate_business_days_counts)
qed

lemma calculate_business_days_weekdays_only:
  assumes "start_date \<le> end_date" and "end_date < date_max"
      and "\<forall>d. start_date \<le> d \<and> d \<le> end_date \<longrightarrow> weekday d < 5"
  shows "calculate_business_days (Some start_date) (Some end_date) =
           Inr (nat (end_date - start_date + 1))"
proof -
  have "{d. start_date \<le> d \<and> d \<le> end_date \<and> weekday d < 5} = {start_date..end_date}"
    using assms(3) by auto
  then show ?thesis
    using assms(1,2) by (simp add: calculate_business_days_counts)
qed

lemma business_days_loop_overflow:
  "current_date \<le> end_date \<Longrightarrow> end_date = date_max \<Longrightarrow>
   business_days_loop current_date end_date n = Inl OverflowError"
proof (induction current_date end_date n rule: business_days_loop.induct)
  case (1 c e n)
  show ?case
  proof (cases "c + 1 > date_max")
    case True
    with "1.prems" show ?thesis by (subst business_days_loop.simps) simp
  next
    case False
    with "1.prems" have next_le: "c + 1 \<le> e" by simp
    from "1.IH" [OF "1.prems"(1) refl False next_le "1.prems"(2)] "1.prems"(1) False
    show ?thesis by (subst business_days_loop.simps) (simp add: Let_def)
  qed
qed

lemma calculate_business_days_overflow:
  "start_date \<le> date_max \<Longrightarrow>
   calculate_business_days (Some start_date) (Some date_max) = Inl OverflowError"
  by (simp add: calculate_business_days_def business_days_loop_overflow)

text \<open>
  C1. The business-day calculation is written to return, for start \<le> end, the number of
  Monday-to-Friday days of the closed range, and it does so for every range that ends
  before the last representable date (lemmas \<open>calculate_business_days_counts\<close>,
  \<open>calculate_business_days_single_weekday\<close>, \<open>calculate_business_days_weekdays_only\<close>).
  For a range that ends on the last representable date, 9999-12-31 (a Friday), the loop
  steps past it after having counted it and the calculation raises instead of returning
  the count (lemma \<open>calculate_business_days_overflow\<close>): for the one-day range of
  that Friday no result 1 is returned.
\<close>

theorem calculate_business_days_last_date:
  "weekday date_max = 4 \<and>
   calculate_business_days (Some date_max) (Some date_max) = Inl OverflowError"
  by (simp add: calculate_business_days_def weekday_def date_max_def
        business_days_loop.simps [of 3652059 3652059 0])

section \<open>The daily cap of TimeEntry\<close>

lemma hours_on_write:
  "te_pk self \<noteq> Some 0 \<Longrightarrow>
   hours_on (write_time_entry db self) (te_user self) (te_date self) =
     sum_list (map te_hours (other_entries db self)) + te_hours self"
  by (cases "te_pk self")
     (simp_all add: hours_on_def write_time_entry_def other_entries_def Let_def conj_ac)

lemma TimeEntry_save_cases:
  "TimeEntry_save fv db self =
     (if fv db self \<and> TimeEntry_clean db self = Inr () then Inr (write_time_entry db self)
      else Inl ValidationError)"
  by (auto simp: TimeEntry_save_def TimeEntry_full_clean_def TimeEntry_clean_def Let_def
           split: sum.splits)

text \<open>
  C3. On a date that no APPROVED leave request of the user covers, saving a TimeEntry
  whose hours would bring the user's hours of that date above 7.5 raises a validation
  error, and no store is returned (nothing is written); after a save that succeeds, the
  user's hours of that date, over all projects, are at most 7.5. The instance's key is
  unset or a key the store assigns (keys start at 1).
\<close>

theorem TimeEntry_save_daily_cap:
  assumes "\<not> is_leave_day db (te_user self) (te_date self)"
      and "te_pk self \<noteq> Some 0"
  shows "(hours_on (write_time_entry db self) (te_user self) (te_date self) > 15 / 2 \<longrightarrow>
            TimeEntry_save fv db self = Inl ValidationError)
       \<and> (\<forall>db'. TimeEntry_save fv db self = Inr db' \<longrightarrow>
            hours_on db' (te_user self) (te_date self) \<le> 15 / 2)"
  using assms
  by (auto simp: TimeEntry_save_cases TimeEntry_clean_def hours_on_write Let_def
           split: if_splits)

theorem TimeEntry_save_daily_cap_witness:
  "\<not> is_leave_day booked_db 1 monday
   \<and> te_pk (entry_of_hours 3) \<noteq> Some 0
   \<and> hours_on (write_time_entry booked_db (entry_of_hours 3)) 1 monday > 15 / 2
   \<and> TimeEntry_save all_fields_valid booked_db (entry_of_hours 3) = Inl ValidationError
   \<and> TimeEntry_save all_fields_valid booked_db (entry_of_hours (5 / 2)) =
       Inr (write_time_entry booked_db (entry_of_hours (5 / 2)))
   \<and> hours_on (write_time_entry booked_db (entry_of_hours (5 / 2))) 1 monday \<le> 15 / 2"
proof -
  have leave: "\<not> is_leave_day booked_db 1 monday"
    by (simp add: is_leave_day_def booked_db_def staff_db_def)
  have user: "te_user (entry_of_hours h) = 1" and day: "te_date (entry_of_hours h) = monday"
    and key: "te_pk (entry_of_hours h) \<noteq> Some 0" for h
    by (simp_all add: entry_of_hours_def)
  have over: "hours_on (write_time_entry booked_db (entry_of_hours 3)) 1 monday > 15 / 2"
    by (simp add: hours_on_def write_time_entry_def booked_db_def staff_db_def
          entry_of_hours_def)
  have saved: "TimeEntry_save all_fields_valid booked_db (entry_of_hours (5 / 2)) =
       Inr (write_time_entry booked_db (entry_of_hours (5 / 2)))"
    by (simp add: TimeEntry_save_cases TimeEntry_clean_def other_entries_def
          all_fields_valid_def is_leave_day_def booked_db_def staff_db_def entry_of_hours_def)
  from TimeEntry_save_daily_cap [of booked_db "entry_of_hours 3" all_fields_valid]
       TimeEntry_save_daily_cap [of booked_db "entry_of_hours (5 / 2)" all_fields_valid]
  show ?thesis
    using leave over saved by (simp add: user day key)
qed



section \<open>Submitting the weekly timesheet\<close>

lemma fold_max_ge: "x \<in> set xs \<Longrightarrow> x \<le> fold max xs (a::nat)"
proof -
  assume "x \<in> set xs"
  then have "x \<le> Max (set (a # xs))" by (intro Max_ge) auto
  then show ?thesis by (simp only: Max.set_eq_fold)
qed

lemma next_pk_fresh: "Some (next_pk ks) \<notin> set ks"
proof
  assume "Some (next_pk ks) \<in> set ks"
  then have "pk_value (Some (next_pk ks)) \<in> set (map pk_value ks)" by (simp only: set_map) (rule imageI)
  then have "next_pk ks \<le> fold max (map pk_value ks) 0"
    using fold_max_ge [of "next_pk ks" "map pk_value ks" 0] by (simp add: pk_value_def)
  then show False by (simp add: next_pk_def)
qed


lemma get_project_pk: "get_project db u pid = Inr p \<Longrightarrow> pr_pk p = pid"
proof -
  assume a: "get_project db u pid = Inr p"
  let ?P = "\<lambda>p. pr_pk p = pid \<and> u \<in> set (pr_members p) \<and> pr_active p"
  from a have "filter ?P (projects db) = [p]"
    by (simp add: get_project_def split: list.splits)
  then have "p \<in> set (filter ?P (projects db))" by simp
  then show ?thesis by simp
qed


lemma TimeEntry_save_InrD:
  "TimeEntry_save fv db e = Inr db' \<Longrightarrow> db' = write_time_entry db e"
  by (auto simp: TimeEntry_save_def split: sum.splits)

lemma update_or_create_InrD:
  assumes "update_or_create fv db u p d h s = Inr db'"
  shows "db' = write_time_entry db
                 \<lparr>te_pk = None, te_user = u, te_project = Some p, te_date = d,
                  te_hours = h, te_submitted = s\<rparr>
         \<or> (\<exists>obj \<in> set (time_entries db).
                te_user obj = u \<and> te_project obj = Some p \<and> te_date obj = d
                \<and> db' = write_time_entry db (obj\<lparr>te_hours := h, te_submitted := s\<rparr>))"
proof -
  let ?K = "\<lambda>e. te_user e = u \<and> te_project e = Some p \<and> te_date e = d"
  show ?thesis
  proof (cases "filter ?K (time_entries db)")
    case Nil
    with assms show ?thesis
      by (auto simp: update_or_create_def dest!: TimeEntry_save_InrD)
  next
    case (Cons obj rest)
    with assms have rest: "rest = []"
      by (cases rest) (simp_all add: update_or_create_def)
    from Cons have "obj \<in> set (filter ?K (time_entries db))" by simp
    then have obj: "obj \<in> set (time_entries db)" "?K obj" by simp_all
    from assms Cons rest have "db' = write_time_entry db (obj\<lparr>te_hours := h, te_submitted := s\<rparr>)"
      by (auto simp: update_or_create_def dest!: TimeEntry_save_InrD)
    with obj show ?thesis by blast
  qed
qed




lemma keys_unique_Some:
  "keys_unique db \<Longrightarrow> x \<in> set (time_entries db) \<Longrightarrow> \<exists>k. te_pk x = Some k"
  by (cases "te_pk x") (auto simp: keys_unique_def image_iff)



lemma keys_unique_write_new:
  "keys_unique db \<Longrightarrow> te_pk e = None \<Longrightarrow> keys_unique (write_time_entry db e)"
  using next_pk_fresh [of "map te_pk (time_entries db)"]
  by (simp add: keys_unique_def write_time_entry_def)

lemma keys_unique_write_old:
  "keys_unique db \<Longrightarrow> te_pk e = Some k \<Longrightarrow> keys_unique (write_time_entry db e)"
  by (auto simp: keys_unique_def write_time_entry_def distinct_map_filter)

lemma update_or_create_keys_unique:
  assumes "update_or_create fv db u p d h s = Inr db'" and "keys_unique db"
  shows "keys_unique db'"
proof -
  from update_or_create_InrD [OF assms(1)] show ?thesis
  proof
    assume "db' = write_time_entry db
                 \<lparr>te_pk = None, te_user = u, te_project = Some p, te_date = d,
                  te_hours = h, te_submitted = s\<rparr>"
    then show ?thesis using assms(2) by (simp add: keys_unique_write_new)
  next
    assume "\<exists>obj \<in> set (time_entries db).
                te_user obj = u \<and> te_project obj = Some p \<and> te_date obj = d
                \<and> db' = write_time_entry db (obj\<lparr>te_hours := h, te_submitted := s\<rparr>)"
    then obtain obj where obj: "obj \<in> set (time_entries db)"
      "db' = write_time_entry db (obj\<lparr>te_hours := h, te_submitted := s\<rparr>)" by blast
    from keys_unique_Some [OF assms(2) obj(1)] obtain k where "te_pk obj = Some k" ..
    then show ?thesis
      using assms(2) obj(2)
      by (simp add: keys_unique_write_old [of db "obj\<lparr>te_hours := h, te_submitted := s\<rparr>" k])
  qed
qed


lemma persist_entries_ConsD:
  assumes "persist_entries fv db u s (((pid, dt), hrs) # rest) = Inr db'"
  obtains db1 where "update_or_create fv db u pid dt hrs s = Inr db1"
    and "persist_entries fv db1 u s rest = Inr db'"
proof -
  from assms obtain project where p: "get_project db u pid = Inr project"
    by (auto split: sum.splits)
  then have "pr_pk project = pid" by (rule get_project_pk)
  with assms p show ?thesis
    by (auto split: sum.splits intro: that)
qed

lemma persist_entries_keys_unique:
  "persist_entries fv db u s entries = Inr db' \<Longrightarrow> keys_unique db \<Longrightarrow> keys_unique db'"
proof (induction fv db u s entries rule: persist_entries.induct)
  case (2 fv db u s pid dt hrs rest)
  from "2.prems"(1) obtain db1 where
    a: "update_or_create fv db u pid dt hrs s = Inr db1" and
    b: "persist_entries fv db1 u s rest = Inr db'" by (rule persist_entries_ConsD)
  from a "2.prems"(2) have k1: "keys_unique db1" by (rule update_or_create_keys_unique)
  from a have c: "update_or_create fv db u (pr_pk project) dt hrs s = Inr db1"
    if "get_project db u pid = Inr project" for project
    using get_project_pk [OF that] by simp
  from "2.prems"(1) obtain project where p: "get_project db u pid = Inr project"
    by (auto split: sum.splits)
  show ?case using "2.IH" [OF p c [OF p] b k1] .
qed simp














section \<open>Leave balance\<close>



lemma used_days_new_pending:
  "lr_pk r = None \<Longrightarrow> lr_status r = PENDING \<Longrightarrow>
   used_days (write_leave_request db r) u lt y = used_days db u lt y"
  by (simp add: used_days_def write_leave_request_def)

lemma LeaveRequest_save_new_pending:
  "LeaveRequest_save db r = Inr db' \<Longrightarrow> lr_pk r = None \<Longrightarrow> lr_status r = PENDING \<Longrightarrow>
   used_days db' u lt y = used_days db u lt y"
  by (auto simp: LeaveRequest_save_def used_days_new_pending split: if_splits sum.splits)

lemma leave_request_form_cases:
  assumes "leave_request_form db today u post = (resp, db')"
  shows "db' = db \<or>
         (\<exists>lt s e n a.
            lp_leave_type post = Some lt \<and> lp_start_date post = Some s
            \<and> lp_end_date post = Some e
            \<and> calculate_business_days (Some s) (Some e) = Inr n
            \<and> s \<le> e \<and> today \<le> s \<and> overlapping db u s e = []
            \<and> leave_entitlements db (u, lt, year_of s) = Some a
            \<and> of_nat n \<le> remaining_days db u lt (year_of s) a
            \<and> LeaveRequest_save db (new_leave_request u lt s e (lp_comments post) (of_nat n))
                = Inr db'
            \<and> resp = Redirect (LeaveSubmitted (of_nat n)))"
  using assms
  by (auto simp: leave_request_form_def LeaveRequestForm_clean_def Let_def
           split: sum.splits option.splits if_splits prod.splits)

lemma leave_request_form_remaining_days:
  assumes "leave_request_form db today u post = (resp, db')"
  shows "remaining_days db' u' lt y a = remaining_days db u' lt y a"
proof -
  from leave_request_form_cases [OF assms] show ?thesis
  proof
    assume "db' = db" then show ?thesis by simp
  next
    assume "\<exists>lt s e n a.
            lp_leave_type post = Some lt \<and> lp_start_date post = Some s
            \<and> lp_end_date post = Some e
            \<and> calculate_business_days (Some s) (Some e) = Inr n
            \<and> s \<le> e \<and> today \<le> s \<and> overlapping db u s e = []
            \<and> leave_entitlements db (u, lt, year_of s) = Some a
            \<and> of_nat n \<le> remaining_days db u lt (year_of s) a
            \<and> LeaveRequest_save db (new_leave_request u lt s e (lp_comments post) (of_nat n))
                = Inr db'
            \<and> resp = Redirect (LeaveSubmitted (of_nat n))"
    then obtain r where "LeaveRequest_save db r = Inr db'" "lr_pk r = None"
      "lr_status r = PENDING"
      by (auto simp: new_leave_request_def)
    then show ?thesis
      by (simp add: remaining_days_def LeaveRequest_save_new_pending)
  qed
qed

text \<open>
  C5. The remaining days of an entitlement are its allocated days minus the total days of
  the user's APPROVED requests of the leave type that start in the year (the definition
  of \<open>remaining_days\<close>), and creating a request leaves them unchanged (lemma
  \<open>leave_request_form_remaining_days\<close>). That only approval changes them does not
  hold: the manager can reject a request that is already APPROVED, and the three days
  it had used are remaining again.
\<close>

theorem reject_changes_remaining_days:
  "map lr_status (leave_requests leave_db) = [APPROVED]
   \<and> remaining_days leave_db 1 1 2030 25 = 22
   \<and> fst (approve_reject_leave leave_db 9 manager_rejects 1) = HttpResponse 200
   \<and> map lr_status (leave_requests (snd (approve_reject_leave leave_db 9 manager_rejects 1)))
       = [REJECTED]
   \<and> remaining_days (snd (approve_reject_leave leave_db 9 manager_rejects 1)) 1 1 2030 25 = 25"
proof -
  have y: "year_of monday = 2030"
    by (simp add: year_of_def monday_def Let_def)
  show ?thesis
    by (simp add: remaining_days_def used_days_def y
          approve_reject_leave_def get_leave_request_def is_manager_of_def
          leave_db_def staff_db_def approved_leave_def
          manager_rejects_def reject_def LeaveRequest_save_def
          write_leave_request_def strip_def is_space_def)
qed

section \<open>The daily cap on leave days\<close>





section \<open>The leave request workflow\<close>

lemma approve_reject_leave_any_status:
  "get_leave_request db request_id None = Inr r \<Longrightarrow>
   is_manager_of db (rq_user request) (lr_user r) \<Longrightarrow> rq_method request = POST \<Longrightarrow>
   rq_action request = Some ''approve'' \<Longrightarrow> lr_total_days r \<noteq> 0 \<Longrightarrow>
   approve_reject_leave db now request request_id =
     (HttpResponse 200,
      write_leave_request db
        (r\<lparr>lr_status := APPROVED, lr_approved_by := Some (rq_user request),
            lr_approved_at := Some now\<rparr>))"
  by (simp add: approve_reject_leave_def approve_def LeaveRequest_save_def)

lemma cancel_leave_request_not_pending:
  "get_leave_request db request_id (Some (rq_user request)) = Inr r \<Longrightarrow>
   lr_status r \<noteq> PENDING \<Longrightarrow>
   cancel_leave_request db request request_id = (HttpResponse 400, db)"
  by (simp add: cancel_leave_request_def)

text \<open>
  C7. The status of a leave request is to change only from PENDING (to APPROVED or
  REJECTED by the manager, to CANCELLED by the owner), and never again afterwards.
  Cancelling checks for PENDING (lemma \<open>cancel_leave_request_not_pending\<close>); approving
  and rejecting do not read the status (lemma \<open>approve_reject_leave_any_status\<close>): the
  manager's approval turns a REJECTED request and a CANCELLED request into APPROVED ones,
  and the manager's rejection turns an APPROVED request into a REJECTED one.
\<close>

theorem approve_reject_leave_from_terminal_status:
  "map lr_status (leave_requests rejected_db) = [REJECTED]
   \<and> fst (approve_reject_leave rejected_db 9 manager_approves 1) = HttpResponse 200
   \<and> map lr_status (leave_requests (snd (approve_reject_leave rejected_db 9 manager_approves 1)))
       = [APPROVED]
   \<and> map lr_status (leave_requests cancelled_db) = [CANCELLED]
   \<and> fst (approve_reject_leave cancelled_db 9 manager_approves 1) = HttpResponse 200
   \<and> map lr_status (leave_requests (snd (approve_reject_leave cancelled_db 9 manager_approves 1)))
       = [APPROVED]
   \<and> map lr_status (leave_requests leave_db) = [APPROVED]
   \<and> fst (approve_reject_leave leave_db 9 manager_rejects 1) = HttpResponse 200
   \<and> map lr_status (leave_requests (snd (approve_reject_leave leave_db 9 manager_rejects 1)))
       = [REJECTED]"
  by (simp add: approve_reject_leave_def get_leave_request_def is_manager_of_def
        rejected_db_def cancelled_db_def leave_db_def staff_db_def rejected_leave_def
        pending_leave_def approved_leave_def
        manager_approves_def manager_rejects_def approve_def reject_def LeaveRequest_save_def
        write_leave_request_def strip_def is_space_def)

lemma approve_reject_leave_not_manager:
  "get_leave_request db request_id None = Inr r \<Longrightarrow>
   \<not> is_manager_of db (rq_user request) (lr_user r) \<Longrightarrow>
   approve_reject_leave db now request request_id = (Raise AttributeError, db)"
  by (simp add: approve_reject_leave_def request_id_attribute_def)

text \<open>
  C8. An approve or reject attempt by a user who is not the direct manager of the
  request's owner is to be answered with a permission-denied response, the request
  unchanged. The request is unchanged, but the branch reads \<^verbatim>\<open>request.id\<close> for
  its log line before it returns, and the view raises \<^verbatim>\<open>AttributeError\<close> instead of
  answering 403 (for every such attempt: lemma \<open>approve_reject_leave_not_manager\<close>).
  Here user 3, who manages nobody, tries to approve the pending request of user 1.
\<close>

theorem approve_reject_leave_permission_raises:
  "get_leave_request pending_db 1 None = Inr pending_leave
   \<and> \<not> is_manager_of pending_db (rq_user colleague_approves) (lr_user pending_leave)
   \<and> approve_reject_leave pending_db 9 colleague_approves 1 = (Raise AttributeError, pending_db)"
  by (simp add: approve_reject_leave_def get_leave_request_def is_manager_of_def
        pending_db_def staff_db_def pending_leave_def approved_leave_def
        colleague_approves_def request_id_attribute_def)

lemma leave_request_form_overlapping:
  "lp_start_date post = Some s \<Longrightarrow> lp_end_date post = Some e \<Longrightarrow> s \<le> e \<Longrightarrow> today \<le> s \<Longrightarrow>
   overlapping db u s e \<noteq> [] \<Longrightarrow>
   leave_request_form db today u post = (Render (missing_fields post @ [OverlappingRequest]), db)"
  by (simp add: leave_request_form_def LeaveRequestForm_clean_def split: option.splits)

text \<open>
  C6. No two leave requests of a user with overlapping date ranges are to be PENDING or
  APPROVED at the same time. Creation refuses a request that overlaps a PENDING or
  APPROVED one of the requester (lemma \<open>leave_request_form_overlapping\<close>), but approval
  does not look at the status or at other requests: user 1 requests Monday to Wednesday,
  cancels the request, requests the same days again, and the manager then approves the
  first request. The store ends with a PENDING and an APPROVED request of user 1 for the
  same days.
\<close>

theorem overlapping_requests_after_late_approval:
  "leave_request_form staff_db monday 1 leave_post_mon_wed =
     (Redirect (LeaveSubmitted 3), pending_db)
   \<and> cancel_leave_request pending_db owner_cancels 1 = (HttpResponse 204, cancelled_db)
   \<and> leave_request_form cancelled_db monday 1 leave_post_mon_wed =
       (Redirect (LeaveSubmitted 3), requested_again_db)
   \<and> approve_reject_leave requested_again_db 9 manager_approves 1 =
       (HttpResponse 200, conflict_db)
   \<and> map (\<lambda>r. (lr_user r, lr_start_date r, lr_end_date r, lr_status r))
        (leave_requests conflict_db) =
       [(1, monday, monday + 2, PENDING), (1, monday, monday + 2, APPROVED)]"
proof -
  have bd: "calculate_business_days (Some monday) (Some (monday + 2)) = Inr 3"
    by (simp add: calculate_business_days_def business_days_loop.simps weekday_def monday_def
          date_max_def)
  have y: "year_of monday = 2030"
    by (simp add: year_of_def monday_def Let_def)
  have create: "leave_request_form staff_db monday 1 leave_post_mon_wed =
        (Redirect (LeaveSubmitted 3), pending_db)"
    by (simp add: leave_request_form_def LeaveRequestForm_clean_def leave_post_mon_wed_def
          overlapping_def bd y staff_db_def pending_db_def pending_leave_def approved_leave_def
          remaining_days_def used_days_def LeaveRequest_save_def new_leave_request_def
          write_leave_request_def next_pk_def)
  have cancel: "cancel_leave_request pending_db owner_cancels 1 = (HttpResponse 204, cancelled_db)"
    by (simp add: cancel_leave_request_def get_leave_request_def owner_cancels_def
          pending_db_def cancelled_db_def staff_db_def pending_leave_def approved_leave_def
          LeaveRequest_save_def write_leave_request_def)
  have again: "leave_request_form cancelled_db monday 1 leave_post_mon_wed =
        (Redirect (LeaveSubmitted 3), requested_again_db)"
    by (simp add: leave_request_form_def LeaveRequestForm_clean_def leave_post_mon_wed_def
          overlapping_def bd y staff_db_def cancelled_db_def requested_again_db_def
          pending_leave_def approved_leave_def
          remaining_days_def used_days_def LeaveRequest_save_def new_leave_request_def
          write_leave_request_def next_pk_def pk_value_def)
  have approve: "approve_reject_leave requested_again_db 9 manager_approves 1 =
        (HttpResponse 200, conflict_db)"
    by (simp add: approve_reject_leave_def get_leave_request_def is_manager_of_def
          requested_again_db_def conflict_db_def staff_db_def pending_leave_def
          approved_leave_def manager_approves_def approve_def LeaveRequest_save_def
          write_leave_request_def)
  have rows: "map (\<lambda>r. (lr_user r, lr_start_date r, lr_end_date r, lr_status r))
          (leave_requests conflict_db) =
        [(1, monday, monday + 2, PENDING), (1, monday, monday + 2, APPROVED)]"
    by (simp add: conflict_db_def staff_db_def pending_leave_def approved_leave_def)
  show ?thesis
    by (simp only: create cancel again approve rows simp_thms)
qed

lemma leave_request_form_entitlement:
  assumes "LeaveRequestForm_clean db today u post = Inr ([], Some n)"
      and "lp_leave_type post = Some lt" and "lp_start_date post = Some s"
  shows "(leave_entitlements db (u, lt, year_of s) = None \<longrightarrow>
            leave_request_form db today u post = (Render [NoEntitlement lt (year_of s)], db))
       \<and> (\<forall>a. leave_entitlements db (u, lt, year_of s) = Some a
                 \<and> of_nat n > remaining_days db u lt (year_of s) a \<longrightarrow>
            leave_request_form db today u post =
              (Render [InsufficientBalance (remaining_days db u lt (year_of s) a)], db))"
  using assms
  by (auto simp: leave_request_form_def LeaveRequestForm_clean_def Let_def
           split: option.splits if_splits sum.splits)

lemma business_days_loop_last_date:
  "business_days_loop 3652059 3652059 0 = Inl OverflowError"
  by (simp add: business_days_loop.simps [of 3652059 3652059 0] date_max_def)

text \<open>
  C9. A leave request is persisted only if a LeaveEntitlement row exists for the
  requester, the leave type and the year of the start date, and the computed total days
  do not exceed its remaining days (lemma \<open>leave_request_form_cases\<close>); once the form
  has validated, a missing row or too many days give an error message and nothing is
  persisted (lemma \<open>leave_request_form_entitlement\<close>). But the form computes the
  business days while it validates, so a request that ends on the last representable
  date raises out of the view before the entitlement is looked up: user 1 has no
  entitlement for the year 9999, and no error message is produced.
\<close>

theorem leave_request_form_last_date:
  "leave_entitlements staff_db (1, 1, year_of date_max) = None
   \<and> leave_request_form staff_db monday 1 leave_post_last_day = (Raise OverflowError, staff_db)"
  by (simp add: leave_request_form_def LeaveRequestForm_clean_def leave_post_last_day_def
        overlapping_def staff_db_def calculate_business_days_def
        business_days_loop_last_date monday_def date_max_def year_of_def Let_def)

end
